theory Spec2Isabelle
  imports Main "HOL-Library.Word"
begin

section \<open>fileguard: the entry point \<^verbatim>\<open>main.c\<close>\<close>

text \<open>
  The program watches one inode through inotify and, for every event the kernel reports,
  prints the event, optionally raises a desktop notification, and either runs a shell
  command or appends a line to a log file. Everything lives in \<^verbatim>\<open>main\<close> and two small
  routines (\<^verbatim>\<open>cleanup\<close>, \<^verbatim>\<open>catch_sig\<close>); this theory follows the C text statement by
  statement.

  What the program does to the outside world is recorded as a trace of calls, in program
  order. What the outside world answers (return values of system calls and of the helper
  routines declared in \<^verbatim>\<open>fileguard.h\<close>, which is not part of the sources) is an input of the
  model, collected in the record \<open>env\<close>.
\<close>

subsection \<open>Calls to the outside world\<close>

datatype arg = S string | I int

datatype stream = Out | Err

datatype level = Debug | Info | Warn

datatype effect =
    Fprintf stream string "arg list"      \<comment> \<open>\<^verbatim>\<open>printf\<close> / \<^verbatim>\<open>fprintf\<close>: format and arguments\<close>
  | Perror string
  | Log level string "arg list"           \<comment> \<open>\<^verbatim>\<open>log_debug\<close>, \<^verbatim>\<open>log_info\<close>, \<^verbatim>\<open>log_warn\<close>\<close>
  | Log_Set_Quiet int
  | Log_Set_Level int
  | File_Check string
  | Create_File string "string option"    \<comment> \<open>second argument \<open>None\<close> is \<^verbatim>\<open>NULL\<close>\<close>
  | Parse_Yaml_Config string
  | Check_Inode_Permissions string
  | Inotify_Init
  | Inotify_Add_Watch int string
  | Inotify_Rm_Watch int int
  | Read_Fd int
  | Close_Fd int                          \<comment> \<open>\<^verbatim>\<open>close(fd)\<close>; the program never calls it\<close>
  | Raise_Notification string string
  | System string

text \<open>How a run ends: \<^verbatim>\<open>exit(code)\<close>, blocked for ever in \<^verbatim>\<open>read\<close>, or a read outside
  an array, where C defines no behaviour.\<close>

datatype halt = Exited int | Blocked_In_Read | Out_Of_Bounds_Read nat

definition EXIT_SUCCESS :: int where "EXIT_SUCCESS = 0"
definition EXIT_FAILURE :: int where "EXIT_FAILURE = 1"

definition nl :: string where "nl = [CHR 0x0A]"
definition dq :: string where "dq = [CHR 0x22]"

subsection \<open>Globals\<close>

text \<open>\<^verbatim>\<open>static volatile sig_atomic_t sc = true; static int fd, wd;\<close> and the trace so far.
  The two descriptors are static, so they start at 0.\<close>

record state =
  sc :: bool
  fd :: int
  wd :: int
  trace :: "effect list"

definition init_state :: state where
  "init_state = \<lparr>sc = True, fd = 0, wd = 0, trace = []\<rparr>"

definition emit :: "effect \<Rightarrow> state \<Rightarrow> state" where
  "emit e st = st\<lparr>trace := trace st @ [e]\<rparr>"

subsection \<open>\<^verbatim>\<open>usage\<close>, \<^verbatim>\<open>cleanup\<close>, \<^verbatim>\<open>catch_sig\<close>\<close>

definition usage_text :: string where
  "usage_text = ''Usage: (note that these are optional arguments)'' @ nl @ nl @
     [CHR 0x09] @ '' %s -[h|v|n] <other.yaml>'' @ nl @ nl @
     ''-h : Display this help message'' @ nl @
     ''-v : Turns ON verbosity'' @ nl @
     ''-n : Turns ON libnotify notifications'' @ nl"

definition usage :: "string \<Rightarrow> state \<Rightarrow> state" where
  "usage application_name st = emit (Fprintf Out usage_text [S application_name]) st"

definition cleanup :: "state \<Rightarrow> state" where
  "cleanup st = emit (Inotify_Rm_Watch (fd st) (wd st)) st"

text \<open>\<^verbatim>\<open>exit\<close>: \<^verbatim>\<open>main\<close> registers \<^verbatim>\<open>cleanup\<close> with \<^verbatim>\<open>atexit\<close> as its first action, before any
  call of \<^verbatim>\<open>exit\<close>, so every \<^verbatim>\<open>exit\<close> runs \<^verbatim>\<open>cleanup\<close> and then ends the process.\<close>

definition exit :: "int \<Rightarrow> state \<Rightarrow> halt \<times> state" where
  "exit code st = (Exited code, cleanup st)"

definition catch_sig :: "int \<Rightarrow> state \<Rightarrow> halt \<times> state" where
  "catch_sig s st =
     (let st1 = emit (Log Warn (''Signal %i caught! Cleaning up...'' @ nl) [I s]) st;
          st2 = st1\<lparr>sc := False\<rparr>;
          st3 = cleanup st2
      in exit EXIT_SUCCESS st3)"

subsection \<open>C string routines\<close>

text \<open>\<^verbatim>\<open>strrchr(s, c)\<close>: the suffix of \<open>s\<close> that starts at the last \<open>c\<close>, or \<^verbatim>\<open>NULL\<close>.\<close>

fun strrchr :: "string \<Rightarrow> char \<Rightarrow> string option" where
  "strrchr [] c = None"
| "strrchr (x # xs) c =
     (case strrchr xs c of
        Some r \<Rightarrow> Some r
      | None \<Rightarrow> if x = c then Some (x # xs) else None)"

text \<open>\<^verbatim>\<open>strtok\<close>: skip leading delimiters; no character left gives \<^verbatim>\<open>NULL\<close>; otherwise the
  token runs to the next delimiter, which is overwritten, and scanning resumes behind it.
  The result is the token and the text a later \<^verbatim>\<open>strtok(NULL, ...)\<close> continues with.\<close>

definition strtok :: "string \<Rightarrow> char list \<Rightarrow> string option \<times> string" where
  "strtok str delim =
     (let s = dropWhile (\<lambda>c. c \<in> set delim) str
      in if s = [] then (None, [])
         else (Some (takeWhile (\<lambda>c. c \<notin> set delim) s),
               drop 1 (dropWhile (\<lambda>c. c \<notin> set delim) s)))"

subsection \<open>Types of the headers\<close>

text \<open>\<^verbatim>\<open>file_t\<close> and \<^verbatim>\<open>yaml_t\<close> are declared in \<^verbatim>\<open>fileguard.h\<close>; the records hold the fields
  \<^verbatim>\<open>main\<close> uses. \<^verbatim>\<open>struct inotify_event\<close> is the kernel's: \<^verbatim>\<open>int wd; uint32_t mask, cookie,
  len; char name[];\<close>, sixteen bytes before the name.\<close>

record file_t =
  flag :: int
  data :: string

record yaml_t =
  return_flag :: bool
  inode :: string
  event :: string
  action :: string

type_synonym byte = "8 word"

record inotify_event =
  ev_wd :: "32 word"
  ev_mask :: "32 word"
  ev_cookie :: "32 word"
  ev_len :: "32 word"

definition sizeof_inotify_event :: nat where
  "sizeof_inotify_event = 16"

text \<open>What \<^verbatim>\<open>read\<close> does when the loop calls it: it returns \<open>rd\<close> and leaves the array
  \<^verbatim>\<open>buf\<close> (all \<^verbatim>\<open>BUF_LEN\<close> bytes of it) with the given content, or \<^verbatim>\<open>SIGINT\<close> arrives while
  the call blocks.\<close>

datatype read_result = Returned int "byte list" | Interrupted int

subsection \<open>The environment\<close>

text \<open>The command line enters the model as \<^verbatim>\<open>getopt\<close> hands it on: \<open>getopt\<close> is the sequence of
  values the calls of line 88 return before \<open>-1\<close>, and \<open>argv\<close> is the argument vector as it
  stands when that loop has ended. GNU \<^verbatim>\<open>getopt\<close> reorders the vector while it scans, moving
  the options in front of the other arguments, so \<open>argv\<close> is the reordered vector: for the
  command line \<^verbatim>\<open>fileguard fileguard.yaml -v\<close> it is \<^verbatim>\<open>fileguard -v fileguard.yaml\<close>. Without an
  option on the command line nothing is moved.\<close>

record env =
  getopt :: "char list"                          \<comment> \<open>what \<^verbatim>\<open>getopt\<close> returns, call by call, before \<open>-1\<close>\<close>
  argv :: "string list"                          \<comment> \<open>the vector as \<^verbatim>\<open>getopt\<close> leaves it\<close>
  verbose_indeterminate :: int                   \<comment> \<open>\<^verbatim>\<open>int verbose;\<close> has no initialiser\<close>
  notifier_indeterminate :: int                  \<comment> \<open>\<^verbatim>\<open>int notifier;\<close> has no initialiser\<close>
  event_flag_indeterminate :: int                \<comment> \<open>\<^verbatim>\<open>int event_flag;\<close> has no initialiser\<close>
  CONFIG_FILE :: string                          \<comment> \<open>macro of \<^verbatim>\<open>fileguard.h\<close>\<close>
  file_check :: "string \<Rightarrow> file_t"
  create_file :: "string \<Rightarrow> string option \<Rightarrow> file_t"
  parse_yaml_config :: "string \<Rightarrow> yaml_t"
  check_inode_permissions :: "string \<Rightarrow> int"
  inotify_init :: int
  inotify_add_watch :: "int \<Rightarrow> string \<Rightarrow> int"
  reads :: "read_result list"
  get_event :: "inotify_event \<Rightarrow> string"
  asctime :: "nat \<Rightarrow> string"                     \<comment> \<open>the time string of the iteration at cursor \<open>p\<close>\<close>
  malloc_ok :: "nat \<Rightarrow> bool"                      \<comment> \<open>whether \<^verbatim>\<open>malloc\<close> succeeds in that iteration\<close>

subsection \<open>Argument parsing (lines 86 to 140)\<close>

record flags =
  verbose :: int
  notifier :: int

fun parse_opts :: "string \<Rightarrow> char list \<Rightarrow> flags \<Rightarrow> state \<Rightarrow> halt \<times> state + flags \<times> state" where
  "parse_opts argv0 [] fl st = Inr (fl, st)"
| "parse_opts argv0 (c # cs) fl st =
     (if c = CHR ''h'' then Inl (exit EXIT_SUCCESS (usage argv0 st))
      else if c = CHR ''v'' then
        parse_opts argv0 cs (fl\<lparr>verbose := 1\<rparr>) (emit (Log Debug ''Setting verbosity flag'' []) st)
      else if c = CHR ''n'' then
        parse_opts argv0 cs (fl\<lparr>notifier := 1\<rparr>) (emit (Log Debug ''Setting notifier flag'' []) st)
      else Inl (exit EXIT_FAILURE (usage argv0 st)))"

definition init_verbosity :: "flags \<Rightarrow> state \<Rightarrow> state" where
  "init_verbosity fl st =
     (if verbose fl = 0 then emit (Log_Set_Quiet 1) st else emit (Log_Set_Level 3) st)"

text \<open>Where \<^verbatim>\<open>yaml_target\<close> points: nowhere, at the literal \<^verbatim>\<open>CONFIG_FILE\<close>, or at an argument.\<close>

datatype yaml_target = NULL | Config_File | Argument string

text \<open>The test of line 125, \<^verbatim>\<open>dot && strcmp(dot, "yaml")\<close>, with \<^verbatim>\<open>dot = strrchr(argv[i], '.')\<close>;
  \<^verbatim>\<open>strcmp\<close> is non-zero when the strings differ.\<close>

definition extension_check :: "string \<Rightarrow> bool" where
  "extension_check a =
     (case strrchr a (CHR ''.'') of
        Some dot \<Rightarrow> dot \<noteq> ''yaml''
      | None \<Rightarrow> False)"

text \<open>The loop over \<^verbatim>\<open>argv[1..]\<close> leaves through \<^verbatim>\<open>break\<close> in both branches of its first
  iteration, so it looks at \<^verbatim>\<open>argv[1]\<close> only.\<close>

definition select_yaml :: "string list \<Rightarrow> state \<Rightarrow> yaml_target \<times> state" where
  "select_yaml av st =
     (case drop 1 av of
        [] \<Rightarrow> (NULL, st)
      | a # _ \<Rightarrow>
          if extension_check a
          then (Argument a, emit (Log Info ''yaml file: %s'' [S a]) st)
          else (Config_File, st))"

definition target_path :: "env \<Rightarrow> yaml_target \<Rightarrow> string" where
  "target_path E t = (case t of Argument a \<Rightarrow> a | _ \<Rightarrow> CONFIG_FILE E)"

subsection \<open>Loading and validating the configuration (lines 142 to 199)\<close>

definition load_config :: "env \<Rightarrow> string \<Rightarrow> state \<Rightarrow> halt \<times> state + yaml_t \<times> state" where
  "load_config E target st =
     (let st1 = emit (Fprintf Out (''Initializing fileguard!'' @ nl) []) st;
          yaml = file_check E target;
          st2 = emit (File_Check target) st1
      in if flag yaml < 0 then
           (let st3 = emit (Fprintf Err (''Error %i: Unable to open file: %s.'' @ nl)
                              [I (flag yaml), S (data yaml)]) st2;
                st4 = emit (Log Debug (''Creating configuration file for you...'' @ nl) []) st3;
                st5 = emit (Create_File (CONFIG_FILE E) None) st4
            in Inl (exit EXIT_FAILURE st5))
         else
           (let st3 = emit (Log Debug ''File %s found'' [S (data yaml)]) st2;
                y = parse_yaml_config E target;
                st4 = emit (Parse_Yaml_Config target) st3
            in if \<not> return_flag y then
                 Inl (exit EXIT_FAILURE
                        (emit (Perror ''Could not initialize YAML parser. Reason'') st4))
               else Inr (y, emit (Log Debug ''Parsed YAML file: inode: %s event: %s execute: %s''
                                    [S (inode y), S (event y), S (action y)]) st4)))"

text \<open>The table of event names, as the array is written: thirteen entries, each a non-null
  pointer.\<close>

definition events :: "string option list" where
  "events =
    [Some ''IN_ACCESS'', Some ''IN_ATTRIB'', Some ''IN_CLOSE_WRITE'', Some ''IN_CLOSE_NOWRITE'',
     Some ''IN_CREATE'', Some ''IN_DELETE'', Some ''IN_DELETE_SELF'', Some ''IN_MODIFY'',
     Some ''IN_MOVE_SELF'', Some ''IN_MOVED_FROM'', Some ''IN_MOVED_TO'', Some ''IN_OPEN'',
     Some ''IN_UNMOUNT'']"

text \<open>\<^verbatim>\<open>for (int i = 0; events[i] != NULL; i++)\<close>: the loop reads \<^verbatim>\<open>events[i]\<close> before each
  iteration. Reading at an index the array does not have is the outcome
  \<open>Out_Of_Bounds_Read i\<close>. The result is the value of \<^verbatim>\<open>event_flag\<close> behind the loop.\<close>

function check_event :: "string \<Rightarrow> nat \<Rightarrow> int \<Rightarrow> halt + int" where
  "check_event y_event i event_flag =
     (if i < length events then
        (case events ! i of
           None \<Rightarrow> Inr event_flag
         | Some e \<Rightarrow>
             if y_event = e then Inr 0
             else check_event y_event (Suc i) 1)
      else Inl (Out_Of_Bounds_Read i))"
  by pat_completeness auto
termination
  by (relation "measure (\<lambda>(y_event, i, event_flag). length events - i)") auto

definition validate :: "env \<Rightarrow> yaml_t \<Rightarrow> state \<Rightarrow> halt \<times> state + state" where
  "validate E y st =
     (case check_event (event y) 0 (event_flag_indeterminate E) of
        Inl h \<Rightarrow> Inl (h, st)
      | Inr event_flag \<Rightarrow>
          if event_flag \<noteq> 0 then
            Inl (exit EXIT_FAILURE
                   (emit (Fprintf Err (nl @ ''Unknown inode event supplied: %s'' @ nl) [S (event y)]) st))
          else
            (let st1 = emit (Log Info ''inode event found! Continuing.'' []) st;
                 inode_check = file_check E (inode y);
                 st2 = emit (File_Check (inode y)) st1
             in if flag inode_check < 0 then
                  Inl (exit EXIT_FAILURE
                         (emit (Fprintf Err (''Error %i: Unable to open inode '' @ dq @ ''%s'' @ dq @ '': %s'' @ nl)
                                  [I (flag inode_check), S (inode y), S (data inode_check)]) st2))
                else
                  (let st3 = emit (Log Info ''inode successfully found and opened.'' []) st2;
                       iperm = check_inode_permissions E (inode y);
                       st4 = emit (Check_Inode_Permissions (inode y)) st3
                   in if iperm < 0 then
                        Inl (exit EXIT_FAILURE
                               (emit (Perror ''Permission check for inode failed! Reason'') st4))
                      else Inr st4)))"

subsection \<open>Opening the channel and tokenising the action (lines 201 to 222)\<close>

text \<open>Both results are stored in the globals and reported with \<^verbatim>\<open>perror\<close> when negative;
  neither branch leaves \<^verbatim>\<open>main\<close>.\<close>

definition init_inotify :: "env \<Rightarrow> yaml_t \<Rightarrow> state \<Rightarrow> state" where
  "init_inotify E y st =
     (let st1 = (emit Inotify_Init st)\<lparr>fd := inotify_init E\<rparr>;
          st2 = (if fd st1 < 0 then emit (Perror ''Could not initialize inotify. Reason'') st1
                 else st1);
          st3 = (emit (Inotify_Add_Watch (fd st2) (inode y)) st2)
                  \<lparr>wd := inotify_add_watch E (fd st2) (inode y)\<rparr>
      in if wd st3 < 0 then emit (Perror ''Could not add watch. Reason'') st3 else st3)"

text \<open>The values of the loop that do not change while it runs.\<close>

record locals =
  y :: yaml_t
  prepend :: "string option"
  command :: string
  notifier_flag :: int

definition split_action :: "yaml_t \<Rightarrow> int \<Rightarrow> state \<Rightarrow> halt \<times> state + locals \<times> state" where
  "split_action yv n st =
     (let str = action yv;
          (pre, rest) = strtok str '' '';
          (cmd, _) = strtok rest dq
      in case cmd of
           None \<Rightarrow>
             Inl (exit EXIT_FAILURE
                    (emit (Fprintf Err (''Command/path cannot be none. Exiting.'' @ nl) []) st))
         | Some c \<Rightarrow> Inr (\<lparr>y = yv, prepend = pre, command = c, notifier_flag = n\<rparr>, st))"

subsection \<open>The event loop (lines 224 to 293)\<close>

text \<open>\<^verbatim>\<open>ev = (struct inotify_event *) p\<close>: the four 32-bit fields at the cursor, least
  significant byte first. A header that does not lie inside the array cannot be read.\<close>

definition u32_at :: "byte list \<Rightarrow> nat \<Rightarrow> 32 word" where
  "u32_at buf off = word_rcat (rev (take 4 (drop off buf)))"

definition ev_at :: "byte list \<Rightarrow> nat \<Rightarrow> inotify_event option" where
  "ev_at buf p =
     (if p + sizeof_inotify_event \<le> length buf then
        Some \<lparr>ev_wd = u32_at buf p, ev_mask = u32_at buf (p + 4),
              ev_cookie = u32_at buf (p + 8), ev_len = u32_at buf (p + 12)\<rparr>
      else None)"

text \<open>Lines 265 to 287: run the command, or write the log line, or nothing.\<close>

definition dispatch :: "env \<Rightarrow> locals \<Rightarrow> nat \<Rightarrow> string \<Rightarrow> string \<Rightarrow> state \<Rightarrow> halt \<times> state + state" where
  "dispatch E L p ltime ev_name st =
     (if prepend L = Some ''execute'' \<and> event (y L) = ev_name then
        Inr (emit (System (command L)) st)
      else if prepend L = Some ''log'' then
        (if malloc_ok E p then
           (let eventstr = ltime @ ev_name @ nl;
                tmpLog = create_file E (command L) (Some eventstr);
                st1 = emit (Create_File (command L) (Some eventstr)) st
            in if flag tmpLog < 0 then
                 Inl (exit EXIT_FAILURE (emit (Perror ''Couldn't create log file. Reason'') st1))
               else Inr st1)
         else Inl (exit EXIT_FAILURE (emit (Perror ''malloc failed. Reason'') st)))
      else Inr st)"

text \<open>Lines 248 to 263: time stamp, the event's name, the line on standard output, the
  notification.\<close>

definition announce :: "env \<Rightarrow> locals \<Rightarrow> string \<Rightarrow> string \<Rightarrow> state \<Rightarrow> state" where
  "announce E L ltime ev_name st =
     (let st1 = emit (Fprintf Out (''%s event ocurred'' @ nl) [S ev_name]) st;
          st2 = emit (Log Debug ''Raising notification'' []) st1
      in if notifier_flag L \<noteq> 0 then emit (Raise_Notification ltime ev_name) st2 else st2)"

text \<open>One iteration of the inner loop, at cursor \<open>p\<close>: the new cursor and state, or the end
  of the run.\<close>

definition loop_body :: "env \<Rightarrow> locals \<Rightarrow> byte list \<Rightarrow> nat \<Rightarrow> state \<Rightarrow> halt \<times> state + nat \<times> state" where
  "loop_body E L buf p st =
     (let ltime = asctime E p;
          st1 = emit (Log Debug ''Time of event: %s'' [S ltime]) st
      in case ev_at buf p of
           None \<Rightarrow> Inl (Out_Of_Bounds_Read p, st1)
         | Some ev \<Rightarrow>
             (let ev_name = get_event E ev;
                  st2 = announce E L ltime ev_name st1
              in case dispatch E L p ltime ev_name st2 of
                   Inl h \<Rightarrow> Inl h
                 | Inr st3 \<Rightarrow> Inr (p + (sizeof_inotify_event + unat (ev_len ev)), st3)))"

lemma loop_body_advances:
  "loop_body E L buf p st = Inr (p', st') \<Longrightarrow> p < p'"
  by (auto simp: loop_body_def sizeof_inotify_event_def Let_def split: option.splits sum.splits)

text \<open>\<^verbatim>\<open>for (p = buf; p < buf + rd;) { ... p += sizeof(struct inotify_event) + ev->len; }\<close>
  with the cursor as an offset into \<^verbatim>\<open>buf\<close>.\<close>

function process_events :: "env \<Rightarrow> locals \<Rightarrow> byte list \<Rightarrow> int \<Rightarrow> nat \<Rightarrow> state \<Rightarrow> halt \<times> state + state" where
  "process_events E L buf rd p st =
     (if int p < rd then
        (case loop_body E L buf p st of
           Inl h \<Rightarrow> Inl h
         | Inr (p', st') \<Rightarrow> process_events E L buf rd p' st')
      else Inr st)"
  by pat_completeness auto
termination
  by (relation "measure (\<lambda>(E, L, buf, rd, p, st). nat (rd - int p))")
     (auto dest: loop_body_advances)

text \<open>\<^verbatim>\<open>while (sc) { rd = read(fd, buf, BUF_LEN); ... }\<close> and the \<^verbatim>\<open>exit(EXIT_SUCCESS)\<close> behind
  it. The \<^verbatim>\<open>else\<close> of the test \<^verbatim>\<open>rd == 0\<close> reports an error and leaves the loop.\<close>

fun event_loop :: "env \<Rightarrow> locals \<Rightarrow> read_result list \<Rightarrow> state \<Rightarrow> halt \<times> state" where
  "event_loop E L [] st =
     (if sc st then (Blocked_In_Read, emit (Read_Fd (fd st)) st)
      else exit EXIT_SUCCESS st)"
| "event_loop E L (r # rs) st =
     (if sc st then
        (let st1 = emit (Read_Fd (fd st)) st
         in case r of
              Interrupted s \<Rightarrow> catch_sig s st1
            | Returned rd buf \<Rightarrow>
                if rd = 0 then
                  (let st2 = emit (Fprintf Out ''read() tossed back a 0'' []) st1
                   in case process_events E L buf rd 0 st2 of
                        Inl h \<Rightarrow> h
                      | Inr st3 \<Rightarrow> event_loop E L rs st3)
                else exit EXIT_SUCCESS (emit (Perror ''Couldn't read event. Reason'') st1))
      else exit EXIT_SUCCESS st)"

subsection \<open>\<^verbatim>\<open>main\<close>\<close>

definition main :: "env \<Rightarrow> halt \<times> state" where
  "main E =
     (let argv0 = (case argv E of [] \<Rightarrow> [] | a # _ \<Rightarrow> a);
          fl0 = \<lparr>verbose = verbose_indeterminate E, notifier = notifier_indeterminate E\<rparr>
      in case parse_opts argv0 (getopt E) fl0 init_state of
           Inl h \<Rightarrow> h
         | Inr (fl, st) \<Rightarrow>
             (let st1 = init_verbosity fl st;
                  (yaml_target, st2) = select_yaml (argv E) st1
              in if yaml_target = NULL then
                   exit EXIT_FAILURE
                     (emit (Fprintf Err (nl @ ''Error: No required YAML configuration supplied.'' @ nl) [])
                        (usage argv0 st2))
                 else
                   (case load_config E (target_path E yaml_target) st2 of
                      Inl h \<Rightarrow> h
                    | Inr (yv, st3) \<Rightarrow>
                        (case validate E yv st3 of
                           Inl h \<Rightarrow> h
                         | Inr st4 \<Rightarrow>
                             (case split_action yv (notifier fl) (init_inotify E yv st4) of
                                Inl h \<Rightarrow> h
                              | Inr (L, st5) \<Rightarrow> event_loop E L (reads E) st5)))))"

subsection \<open>The cursor of the inner loop on its own\<close>

text \<open>The records the inner loop visits and where its cursor ends: the loop head (line 240),
  the cast (line 254) and the advance (line 288), without the effects in between. The end
  is the final cursor, or the offset of a header the array does not hold.\<close>

function decode :: "byte list \<Rightarrow> int \<Rightarrow> nat \<Rightarrow> (nat \<times> inotify_event) list \<times> (halt + nat)" where
  "decode buf rd p =
     (if int p < rd then
        (case ev_at buf p of
           None \<Rightarrow> ([], Inl (Out_Of_Bounds_Read p))
         | Some ev \<Rightarrow>
             (let (recs, e) = decode buf rd (p + (sizeof_inotify_event + unat (ev_len ev)))
              in ((p, ev) # recs, e)))
      else ([], Inr p))"
  by pat_completeness auto
termination
  by (relation "measure (\<lambda>(buf, rd, p). nat rd - p)")
     (auto simp: sizeof_inotify_event_def)

declare check_event.simps [simp del]
declare decode.simps [simp del]
declare process_events.simps [simp del]

subsection \<open>Reading traces\<close>

definition final_state :: "halt \<times> state + state \<Rightarrow> state" where
  "final_state r = (case r of Inl (h, st) \<Rightarrow> st | Inr st \<Rightarrow> st)"

definition body_state :: "halt \<times> state + nat \<times> state \<Rightarrow> state" where
  "body_state r = (case r of Inl (h, st) \<Rightarrow> st | Inr (p, st) \<Rightarrow> st)"

fun stdout_line :: "effect \<Rightarrow> (string \<times> arg list) list" where
  "stdout_line (Fprintf Out f as) = [(f, as)]"
| "stdout_line _ = []"

text \<open>What a trace writes to standard output, call by call.\<close>

definition printed :: "effect list \<Rightarrow> (string \<times> arg list) list" where
  "printed tr = concat (map stdout_line tr)"

definition event_line :: "string \<Rightarrow> string \<times> arg list" where
  "event_line ev_name = (''%s event ocurred'' @ nl, [S ev_name])"

fun is_action :: "effect \<Rightarrow> bool" where
  "is_action (System c) = True"
| "is_action (Create_File f t) = True"
| "is_action _ = False"

text \<open>The configured actions a trace performs: commands run and files written.\<close>

definition actions :: "effect list \<Rightarrow> effect list" where
  "actions tr = filter is_action tr"

fun is_rm_watch :: "effect \<Rightarrow> bool" where
  "is_rm_watch (Inotify_Rm_Watch f w) = True"
| "is_rm_watch _ = False"

fun is_close :: "effect \<Rightarrow> bool" where
  "is_close (Close_Fd f) = True"
| "is_close _ = False"

definition releases :: "effect list \<Rightarrow> nat" where
  "releases tr = length (filter is_rm_watch tr)"

definition closes :: "effect list \<Rightarrow> nat" where
  "closes tr = length (filter is_close tr)"

text \<open>The specification's wording of teardown: the watch handle and the channel handle are
  each released exactly once.\<close>

definition released_exactly_once :: "effect list \<Rightarrow> bool" where
  "released_exactly_once tr = (releases tr = 1 \<and> closes tr = 1)"

text \<open>A state in which nothing has been released and no signal has been handled.\<close>

definition unreleased :: "state \<Rightarrow> bool" where
  "unreleased st = (sc st \<and> releases (trace st) = 0 \<and> closes (trace st) = 0)"

text \<open>What holds of a run that ended in \<^verbatim>\<open>exit\<close>: the removal of the watch is its last call,
  it was issued once, or twice when the signal handler ran, and nothing was closed.\<close>

definition torn_down :: "halt \<times> state \<Rightarrow> bool" where
  "torn_down r =
     (case fst r of
        Exited c \<Rightarrow>
          trace (snd r) \<noteq> [] \<and>
          last (trace (snd r)) = Inotify_Rm_Watch (fd (snd r)) (wd (snd r)) \<and>
          releases (trace (snd r)) = (if sc (snd r) then 1 else 2) \<and>
          closes (trace (snd r)) = 0
      | _ \<Rightarrow> True)"

subsection \<open>Buffers as the kernel lays them out\<close>

text \<open>A record is a header and the bytes of its name. It is well formed when the header's
  \<^verbatim>\<open>len\<close> is the number of name bytes that follow (the kernel counts the padding of the name
  in \<^verbatim>\<open>len\<close>).\<close>

type_synonym raw_event = "inotify_event \<times> byte list"

definition le_bytes :: "32 word \<Rightarrow> byte list" where
  "le_bytes w = [ucast w, ucast (drop_bit 8 w), ucast (drop_bit 16 w), ucast (drop_bit 24 w)]"

definition enc_event :: "raw_event \<Rightarrow> byte list" where
  "enc_event r =
     le_bytes (ev_wd (fst r)) @ le_bytes (ev_mask (fst r)) @ le_bytes (ev_cookie (fst r)) @
     le_bytes (ev_len (fst r)) @ snd r"

definition pack :: "raw_event list \<Rightarrow> byte list" where
  "pack rs = concat (map enc_event rs)"

definition well_formed :: "raw_event \<Rightarrow> bool" where
  "well_formed r = (length (snd r) = unat (ev_len (fst r)))"

fun offsets :: "nat \<Rightarrow> raw_event list \<Rightarrow> nat list" where
  "offsets p [] = []"
| "offsets p (r # rs) = p # offsets (p + length (enc_event r)) rs"


text \<open>The specification's reading of the extension rule: the argument ends in a given
  suffix.\<close>

definition ends_with :: "string \<Rightarrow> string \<Rightarrow> bool" where
  "ends_with suffix a =
     (length suffix \<le> length a \<and> drop (length a - length suffix) a = suffix)"

subsection \<open>Concrete inputs\<close>

text \<open>An environment in which every start-up step succeeds, for the closed examples. The
  classifier \<^verbatim>\<open>get_event\<close> is declared in \<^verbatim>\<open>fileguard.h\<close> and takes part in the model as a
  parameter; the examples use a stand-in that tells three masks apart.\<close>

definition sample_get_event :: "inotify_event \<Rightarrow> string" where
  "sample_get_event ev =
     (if ev_mask ev = 0x2 then ''IN_MODIFY''
      else if ev_mask ev = 0x20 then ''IN_OPEN''
      else if ev_mask ev = 0x200 then ''IN_DELETE''
      else ''IN_ACCESS'')"

definition sample_yaml :: yaml_t where
  "sample_yaml =
     \<lparr>return_flag = True, inode = ''/tmp/watched'', event = ''IN_MODIFY'',
      action = ''execute '' @ dq @ ''touch /tmp/seen'' @ dq\<rparr>"

definition sample_time :: string where
  "sample_time = ''Thu Jan  1 00:00:00 1970'' @ nl"

definition sample_env :: env where
  "sample_env =
     \<lparr>getopt = [], argv = [''fileguard'', ''fileguard.yaml''],
      verbose_indeterminate = 0, notifier_indeterminate = 0, event_flag_indeterminate = 0,
      CONFIG_FILE = ''config.yaml'',
      file_check = (\<lambda>path. \<lparr>flag = 0, data = path\<rparr>),
      create_file = (\<lambda>path text. \<lparr>flag = 0, data = path\<rparr>),
      parse_yaml_config = (\<lambda>path. sample_yaml),
      check_inode_permissions = (\<lambda>path. 0),
      inotify_init = 3,
      inotify_add_watch = (\<lambda>f path. 1),
      reads = [],
      get_event = sample_get_event,
      asctime = (\<lambda>p. sample_time),
      malloc_ok = (\<lambda>p. True)\<rparr>"

definition sample_hdr :: "32 word \<Rightarrow> 32 word \<Rightarrow> inotify_event" where
  "sample_hdr m l = \<lparr>ev_wd = 1, ev_mask = m, ev_cookie = 0, ev_len = l\<rparr>"

text \<open>Three records without names: \<^verbatim>\<open>IN_OPEN\<close>, \<^verbatim>\<open>IN_MODIFY\<close>, \<^verbatim>\<open>IN_DELETE\<close>.\<close>

definition open_modify_delete :: "byte list" where
  "open_modify_delete =
     pack [(sample_hdr 0x20 0, []), (sample_hdr 0x2 0, []), (sample_hdr 0x200 0, [])]"

text \<open>Three records with names of 16, 0 and 32 bytes.\<close>

definition varying_records :: "raw_event list" where
  "varying_records =
     [(sample_hdr 0x100 16, replicate 16 0x61), (sample_hdr 0x2 0, []),
      (sample_hdr 0x200 32, replicate 32 0x62)]"


definition execute_locals :: locals where
  "execute_locals =
     \<lparr>y = sample_yaml, prepend = Some ''execute'', command = ''touch /tmp/seen'',
      notifier_flag = 0\<rparr>"

definition log_locals :: locals where
  "log_locals =
     \<lparr>y = sample_yaml, prepend = Some ''log'', command = ''/tmp/fileguard.log'',
      notifier_flag = 0\<rparr>"

text \<open>The globals once the channel is open and the watch is registered.\<close>

definition watching :: state where
  "watching = \<lparr>sc = True, fd = 3, wd = 1, trace = []\<rparr>"

text \<open>Opening the channel and adding the watch both fail; the first \<^verbatim>\<open>read\<close> fails too.\<close>

definition failing_init_env :: env where
  "failing_init_env =
     sample_env\<lparr>inotify_init := - 1, inotify_add_watch := (\<lambda>f path. - 1),
                reads := [Returned (- 1) []]\<rparr>"

text \<open>The first \<^verbatim>\<open>read\<close> returns 48 bytes, the three records \<^verbatim>\<open>IN_OPEN\<close>, \<^verbatim>\<open>IN_MODIFY\<close>,
  \<^verbatim>\<open>IN_DELETE\<close>; the rule is the sample rule (run a command on \<^verbatim>\<open>IN_MODIFY\<close>), or the same
  rule in Log mode.\<close>

definition three_events_env :: env where
  "three_events_env = sample_env\<lparr>reads := [Returned 48 open_modify_delete]\<rparr>"

definition log_yaml :: yaml_t where
  "log_yaml = sample_yaml\<lparr>action := ''log /tmp/fileguard.log''\<rparr>"

definition three_events_log_env :: env where
  "three_events_log_env =
     sample_env\<lparr>parse_yaml_config := (\<lambda>path. log_yaml),
                reads := [Returned 48 open_modify_delete]\<rparr>"

text \<open>The first \<^verbatim>\<open>read\<close> returns 96 bytes, the three records with names of 16, 0 and 32
  bytes, in an array of 128 bytes.\<close>

definition varying_env :: env where
  "varying_env = sample_env\<lparr>reads := [Returned 96 (pack varying_records @ replicate 32 0)]\<rparr>"

text \<open>The command line \<^verbatim>\<open>fileguard notes.txt\<close>.\<close>

definition notes_env :: env where
  "notes_env = sample_env\<lparr>argv := [''fileguard'', ''notes.txt'']\<rparr>"

text \<open>\<^verbatim>\<open>SIGINT\<close> arrives during the first \<^verbatim>\<open>read\<close>.\<close>

definition interrupted_env :: env where
  "interrupted_env = sample_env\<lparr>reads := [Interrupted 2]\<rparr>"

section \<open>Properties\<close>

lemmas sample_defs =
  sample_env_def sample_yaml_def sample_time_def sample_get_event_def sample_hdr_def
  execute_locals_def log_locals_def watching_def

lemmas run_defs =
  loop_body_def announce_def dispatch_def ev_at_def u32_at_def word_rcat_def
  sizeof_inotify_event_def exit_def cleanup_def emit_def Let_def
  EXIT_SUCCESS_def EXIT_FAILURE_def

lemmas layout_defs =
  pack_def enc_event_def le_bytes_def

lemmas startup_defs =
  main_def init_state_def init_verbosity_def select_yaml_def extension_check_def
  target_path_def load_config_def validate_def check_event.simps events_def init_inotify_def
  split_action_def strtok_def nl_def dq_def

subsection \<open>The read loop\<close>

lemma zero_read_continues:
  "sc st \<Longrightarrow>
   event_loop E L (Returned 0 buf # rs) st =
     event_loop E L rs
       (emit (Fprintf Out ''read() tossed back a 0'' []) (emit (Read_Fd (fd st)) st))"
  by (simp add: process_events.simps)

lemma nonzero_read_leaves_loop:
  "sc st \<Longrightarrow> rd \<noteq> 0 \<Longrightarrow>
   event_loop E L (Returned rd buf # rs) st =
     exit EXIT_SUCCESS (emit (Perror ''Couldn't read event. Reason'') (emit (Read_Fd (fd st)) st))"
  by simp

text \<open>
  Claim C1: while watching, a read that returns \<open>n > 0\<close> bytes hands the buffer to the
  decoder and the dispatcher and the loop goes on; a read of 0 bytes is reported and the
  loop goes on.

  The second half holds (\<open>zero_read_continues\<close>). The first does not: the test after
  \<^verbatim>\<open>read\<close> is \<^verbatim>\<open>if (rd == 0) ... else { perror(...); break; }\<close>, so every non-zero result,
  positive ones included, is reported as an error and ends the loop. A read of 16 bytes,
  whatever the buffer holds and whatever would be read next, ends the run with
  \<^verbatim>\<open>exit(EXIT_SUCCESS)\<close>; no record is printed or dispatched.
\<close>

theorem positive_read_leaves_loop:
  "event_loop E L (Returned 16 buf # rs) \<lparr>sc = True, fd = f, wd = w, trace = tr\<rparr> =
     (Exited EXIT_SUCCESS,
      \<lparr>sc = True, fd = f, wd = w,
       trace = tr @ [Read_Fd f, Perror ''Couldn't read event. Reason'', Inotify_Rm_Watch f w]\<rparr>)"
  by (simp add: exit_def cleanup_def emit_def)

text \<open>The inner loop is entered only behind a read of 0 bytes, where it has nothing to do. So
  the read loop, whatever it reads, runs no configured action and prints no event line.\<close>

lemma inner_loop_not_entered: "process_events E L buf 0 p st = Inr st"
  by (simp add: process_events.simps)

lemma actions_emit: "actions (trace (emit e st)) = actions (trace st) @ (if is_action e then [e] else [])"
  by (simp add: actions_def emit_def)

lemma printed_emit: "printed (trace (emit e st)) = printed (trace st) @ stdout_line e"
  by (simp add: printed_def emit_def)

lemma actions_exit: "actions (trace (snd (exit c st))) = actions (trace st)"
  by (simp add: exit_def cleanup_def emit_def actions_def)

lemma actions_catch_sig: "actions (trace (snd (catch_sig s st))) = actions (trace st)"
  by (simp add: catch_sig_def exit_def cleanup_def emit_def actions_def Let_def)

lemma printed_exit: "printed (trace (snd (exit c st))) = printed (trace st)"
  by (simp add: exit_def cleanup_def emit_def printed_def)

lemma printed_catch_sig: "printed (trace (snd (catch_sig s st))) = printed (trace st)"
  by (simp add: catch_sig_def exit_def cleanup_def emit_def printed_def Let_def)

lemma event_loop_runs_no_action:
  "actions (trace (snd (event_loop E L rs st))) = actions (trace st)"
proof (induction rs arbitrary: st)
  case Nil
  show ?case by (simp add: actions_exit actions_emit)
next
  case (Cons r rs)
  show ?case
  proof (cases r)
    case (Interrupted s)
    then show ?thesis
      by (simp add: actions_catch_sig actions_exit actions_emit Let_def)
  next
    case (Returned rd buf)
    then show ?thesis
      by (simp add: Cons.IH inner_loop_not_entered actions_exit actions_emit Let_def)
  qed
qed

lemma event_loop_prints_no_event:
  "event_line nm \<notin> set (printed (trace st)) \<Longrightarrow>
   event_line nm \<notin> set (printed (trace (snd (event_loop E L rs st))))"
proof (induction rs arbitrary: st)
  case Nil
  then show ?case by (simp add: printed_exit printed_emit)
next
  case (Cons r rs)
  show ?case
  proof (cases r)
    case (Interrupted s)
    with Cons.prems show ?thesis
      by (simp add: printed_catch_sig printed_exit printed_emit Let_def)
  next
    case (Returned rd buf)
    let ?st2 = "emit (Fprintf Out ''read() tossed back a 0'' []) (emit (Read_Fd (fd st)) st)"
    have "event_line nm \<notin> set (printed (trace ?st2))"
      using Cons.prems by (simp add: printed_emit event_line_def)
    from Cons.IH [OF this] Cons.prems Returned show ?thesis
      by (simp add: inner_loop_not_entered printed_exit printed_emit Let_def)
  qed
qed

subsection \<open>Dispatch\<close>

lemma open_modify_delete_bytes:
  "open_modify_delete =
     [1, 0, 0, 0, 32, 0, 0, 0, 0, 0, 0, 0, 0, 0, 0, 0,
      1, 0, 0, 0, 2, 0, 0, 0, 0, 0, 0, 0, 0, 0, 0, 0,
      1, 0, 0, 0, 0, 2, 0, 0, 0, 0, 0, 0, 0, 0, 0, 0]"
  by (simp add: open_modify_delete_def layout_defs sample_hdr_def)

lemma dispatch_execute_other_event:
  "prepend L = Some ''execute'' \<Longrightarrow> event (y L) \<noteq> ev_name \<Longrightarrow>
   dispatch E L p ltime ev_name st = Inr st"
  by (simp add: dispatch_def)

lemma execute_mode_acts_on_trigger_only:
  "actions (trace (final_state
     (process_events sample_env execute_locals open_modify_delete 48 0 watching))) =
     [System ''touch /tmp/seen'']"
  by (simp add: open_modify_delete_bytes process_events.simps run_defs sample_defs
        final_state_def actions_def)

lemma log_branch_compares_nothing:
  "actions (trace (final_state
     (process_events sample_env log_locals open_modify_delete 48 0 watching))) =
     [Create_File ''/tmp/fileguard.log'' (Some (sample_time @ ''IN_OPEN'' @ nl)),
      Create_File ''/tmp/fileguard.log'' (Some (sample_time @ ''IN_MODIFY'' @ nl)),
      Create_File ''/tmp/fileguard.log'' (Some (sample_time @ ''IN_DELETE'' @ nl))]"
  by (simp add: open_modify_delete_bytes process_events.simps run_defs sample_defs
        final_state_def actions_def)

lemma decode_open_modify_delete:
  "decode open_modify_delete 48 0 =
     ([(0, sample_hdr 0x20 0), (16, sample_hdr 0x2 0), (32, sample_hdr 0x200 0)], Inr 48)"
  by code_simp

lemma main_three_events:
  "main three_events_env =
     (Exited EXIT_SUCCESS,
      \<lparr>sc = True, fd = 3, wd = 1,
       trace =
         [Log_Set_Quiet 1,
          Log Info ''yaml file: %s'' [S ''fileguard.yaml''],
          Fprintf Out (''Initializing fileguard!'' @ nl) [],
          File_Check ''fileguard.yaml'',
          Log Debug ''File %s found'' [S ''fileguard.yaml''],
          Parse_Yaml_Config ''fileguard.yaml'',
          Log Debug ''Parsed YAML file: inode: %s event: %s execute: %s''
            [S ''/tmp/watched'', S ''IN_MODIFY'', S (action sample_yaml)],
          Log Info ''inode event found! Continuing.'' [],
          File_Check ''/tmp/watched'',
          Log Info ''inode successfully found and opened.'' [],
          Check_Inode_Permissions ''/tmp/watched'',
          Inotify_Init,
          Inotify_Add_Watch 3 ''/tmp/watched'',
          Read_Fd 3,
          Perror ''Couldn't read event. Reason'',
          Inotify_Rm_Watch 3 1]\<rparr>)"
  by (simp add: three_events_env_def startup_defs sample_defs
        exit_def cleanup_def emit_def Let_def EXIT_SUCCESS_def EXIT_FAILURE_def)

lemma main_three_events_log:
  "main three_events_log_env =
     (Exited EXIT_SUCCESS,
      \<lparr>sc = True, fd = 3, wd = 1,
       trace =
         [Log_Set_Quiet 1,
          Log Info ''yaml file: %s'' [S ''fileguard.yaml''],
          Fprintf Out (''Initializing fileguard!'' @ nl) [],
          File_Check ''fileguard.yaml'',
          Log Debug ''File %s found'' [S ''fileguard.yaml''],
          Parse_Yaml_Config ''fileguard.yaml'',
          Log Debug ''Parsed YAML file: inode: %s event: %s execute: %s''
            [S ''/tmp/watched'', S ''IN_MODIFY'', S ''log /tmp/fileguard.log''],
          Log Info ''inode event found! Continuing.'' [],
          File_Check ''/tmp/watched'',
          Log Info ''inode successfully found and opened.'' [],
          Check_Inode_Permissions ''/tmp/watched'',
          Inotify_Init,
          Inotify_Add_Watch 3 ''/tmp/watched'',
          Read_Fd 3,
          Perror ''Couldn't read event. Reason'',
          Inotify_Rm_Watch 3 1]\<rparr>)"
  by (simp add: three_events_log_env_def log_yaml_def startup_defs sample_defs
        exit_def cleanup_def emit_def Let_def EXIT_SUCCESS_def EXIT_FAILURE_def)

text \<open>
  Claim C2: an event whose name differs from the rule's trigger causes no side effect in
  dispatch, in Execute mode and in Log mode; with trigger Modify, the events Open, Modify,
  Delete invoke the configured action once, on Modify.

  The program never gets as far as dispatch. A read that delivers the three events returns
  48, takes the \<^verbatim>\<open>else\<close> of the test \<^verbatim>\<open>rd == 0\<close> (the slip of claim C1), and the run ends with
  \<^verbatim>\<open>exit(EXIT_SUCCESS)\<close>: with the trigger \<^verbatim>\<open>IN_MODIFY\<close>, in Execute mode and in Log mode, the
  configured action is invoked not once but never (for every input:
  \<open>event_loop_runs_no_action\<close>). The inner loop, as written, would run the command on the
  trigger only (\<open>execute_mode_acts_on_trigger_only\<close>).
\<close>

theorem delivered_trigger_runs_no_action:
  "reads three_events_env = [Returned 48 open_modify_delete] \<and>
   fst (decode open_modify_delete 48 0) =
     [(0, sample_hdr 0x20 0), (16, sample_hdr 0x2 0), (32, sample_hdr 0x200 0)] \<and>
   get_event three_events_env (sample_hdr 0x2 0) = ''IN_MODIFY'' \<and>
   event (parse_yaml_config three_events_env ''fileguard.yaml'') = ''IN_MODIFY'' \<and>
   event (parse_yaml_config three_events_log_env ''fileguard.yaml'') = ''IN_MODIFY'' \<and>
   fst (main three_events_env) = Exited EXIT_SUCCESS \<and>
   actions (trace (snd (main three_events_env))) = [] \<and>
   fst (main three_events_log_env) = Exited EXIT_SUCCESS \<and>
   actions (trace (snd (main three_events_log_env))) = []"
  by (simp add: main_three_events main_three_events_log decode_open_modify_delete actions_def)
     (simp add: three_events_env_def three_events_log_env_def log_yaml_def sample_defs)

subsection \<open>Start-up\<close>

text \<open>
  Claim C5: when opening the notification channel fails, or registering the watch fails,
  the process exits before the read loop runs.

  Every other start-up check of \<^verbatim>\<open>main\<close> follows its report with \<^verbatim>\<open>exit(EXIT_FAILURE)\<close>;
  the two checks of lines 203 and 209 call \<^verbatim>\<open>perror\<close> only. With \<^verbatim>\<open>inotify_init\<close> and
  \<^verbatim>\<open>inotify_add_watch\<close> both returning \<open>-1\<close>, the run goes on to \<^verbatim>\<open>read(-1, ...)\<close> inside the
  loop and ends, after that read fails, with \<^verbatim>\<open>exit(EXIT_SUCCESS)\<close>.
\<close>

theorem failed_init_reaches_read:
  "main failing_init_env =
     (Exited EXIT_SUCCESS,
      \<lparr>sc = True, fd = - 1, wd = - 1,
       trace =
         [Log_Set_Quiet 1,
          Log Info ''yaml file: %s'' [S ''fileguard.yaml''],
          Fprintf Out (''Initializing fileguard!'' @ nl) [],
          File_Check ''fileguard.yaml'',
          Log Debug ''File %s found'' [S ''fileguard.yaml''],
          Parse_Yaml_Config ''fileguard.yaml'',
          Log Debug ''Parsed YAML file: inode: %s event: %s execute: %s''
            [S ''/tmp/watched'', S ''IN_MODIFY'', S (action sample_yaml)],
          Log Info ''inode event found! Continuing.'' [],
          File_Check ''/tmp/watched'',
          Log Info ''inode successfully found and opened.'' [],
          Check_Inode_Permissions ''/tmp/watched'',
          Inotify_Init,
          Perror ''Could not initialize inotify. Reason'',
          Inotify_Add_Watch (- 1) ''/tmp/watched'',
          Perror ''Could not add watch. Reason'',
          Read_Fd (- 1),
          Perror ''Couldn't read event. Reason'',
          Inotify_Rm_Watch (- 1) (- 1)]\<rparr>)"
  by (simp add: failing_init_env_def startup_defs sample_defs
        exit_def cleanup_def emit_def Let_def EXIT_SUCCESS_def EXIT_FAILURE_def)

subsection \<open>The configuration file argument\<close>

lemma strrchr_Some_hd: "strrchr a c = Some d \<Longrightarrow> \<exists>t. d = c # t"
  by (induction a) (auto split: option.splits if_splits)

lemma strrchr_None: "strrchr a c = None \<longleftrightarrow> c \<notin> set a"
  by (induction a) (auto split: option.splits if_splits)

text \<open>What \<^verbatim>\<open>strrchr\<close> returns starts with the dot, so it never equals \<^verbatim>\<open>"yaml"\<close>: the test of
  line 125 asks no more than whether the argument contains a dot.\<close>

lemma extension_check_iff_dot: "extension_check a = (CHR ''.'' \<in> set a)"
  using strrchr_None [of a "CHR ''.''"] strrchr_Some_hd [of a "CHR ''.''"]
  by (auto simp: extension_check_def split: option.splits)

text \<open>With an option on the command line, the vector \<^verbatim>\<open>getopt\<close> leaves has the option in
  \<^verbatim>\<open>argv[1]\<close>, the only element the loop of line 123 looks at: the path is not examined.\<close>

lemma option_hides_the_path:
  "fst (select_yaml [''fileguard'', ''-v'', ''fileguard.yaml''] st) = Config_File"
  by (simp add: select_yaml_def extension_check_def)

text \<open>
  Claim C7: the program falls back to the default configuration path exactly when the
  extension check of the path argument fails, so that an argument that does not end in
  \<^verbatim>\<open>.yaml\<close> falls back to the default.

  The test of line 125 is meant to tell \<^verbatim>\<open>.yaml\<close> files from others (the usage text names the
  argument \<^verbatim>\<open><other.yaml>\<close>, the branch logs \<^verbatim>\<open>yaml file: %s\<close>), and misses it: it compares the
  suffix, dot included, with \<^verbatim>\<open>"yaml"\<close>, and takes the argument when the two differ. For the
  command line \<^verbatim>\<open>fileguard notes.txt\<close> the program logs \<^verbatim>\<open>notes.txt\<close> as the yaml file and checks
  and parses that file; the default path is not used.
\<close>

theorem notes_txt_is_used:
  "getopt notes_env = [] \<and> argv notes_env = [''fileguard'', ''notes.txt''] \<and>
   \<not> ends_with ''.yaml'' ''notes.txt'' \<and>
   fst (select_yaml (argv notes_env) init_state) = Argument ''notes.txt'' \<and>
   take 6 (trace (snd (main notes_env))) =
     [Log_Set_Quiet 1,
      Log Info ''yaml file: %s'' [S ''notes.txt''],
      Fprintf Out (''Initializing fileguard!'' @ nl) [],
      File_Check ''notes.txt'',
      Log Debug ''File %s found'' [S ''notes.txt''],
      Parse_Yaml_Config ''notes.txt''] \<and>
   File_Check (CONFIG_FILE notes_env) \<notin> set (trace (snd (main notes_env)))"
  by (simp add: notes_env_def ends_with_def startup_defs sample_defs
        exit_def cleanup_def emit_def Let_def EXIT_SUCCESS_def EXIT_FAILURE_def)

subsection \<open>Validation of the event name\<close>

lemma check_event_miss:
  "i \<le> length events \<Longrightarrow> Some e \<notin> set (drop i events) \<Longrightarrow>
   check_event e i f = Inl (Out_Of_Bounds_Read (length events))"
proof (induction e i f rule: check_event.induct)
  case (1 y_event i event_flag)
  show ?case
  proof (cases "i < length events")
    case False
    with "1.prems" show ?thesis by (simp add: check_event.simps)
  next
    case True
    then have d: "drop i events = events ! i # drop (Suc i) events"
      by (simp add: Cons_nth_drop_Suc)
    obtain e where e: "events ! i = Some e" and ne: "y_event \<noteq> e"
      using "1.prems"(2) d by (cases "events ! i") (auto simp: events_def nth_Cons' split: if_splits)
    have "check_event y_event (Suc i) 1 = Inl (Out_Of_Bounds_Read (length events))"
      using "1.IH" [OF True e ne] True "1.prems"(2) d by simp
    with True e ne show ?thesis by (subst check_event.simps) simp
  qed
qed

lemma known_event_is_accepted: "check_event ''IN_UNMOUNT'' 0 f = Inr 0"
  by (simp add: check_event.simps events_def)

text \<open>
  Claim C9: for every configured event name, the validation loop reads only indices inside
  the 13-element table before it accepts or rejects the name.

  The loop runs until \<^verbatim>\<open>events[i] == NULL\<close>, and the table has no such entry. A name of the
  table stops the loop at its own index (\<open>known_event_is_accepted\<close> for the last one). A
  name outside the table, such as \<^verbatim>\<open>IN_BOGUS\<close>, is compared with all thirteen entries, after
  which the loop condition reads \<^verbatim>\<open>events[13]\<close> (\<open>check_event_miss\<close> for every such name).
\<close>

theorem unknown_event_reads_past_table:
  "length events = 13 \<and> check_event ''IN_BOGUS'' 0 f = Inl (Out_Of_Bounds_Read 13)"
  by (simp add: check_event.simps events_def)

subsection \<open>The flags\<close>

text \<open>
  Claim C10: two runs with the same arguments, neither \<^verbatim>\<open>-v\<close> nor \<^verbatim>\<open>-n\<close> among them, take
  the same verbosity and notification decisions.

  \<^verbatim>\<open>verbose\<close> and \<^verbatim>\<open>notifier\<close> are assigned only when their flag is seen, and are read in any
  case. With no option at all, the option loop hands on whatever the two variables held;
  one and the same command line then silences the log when \<^verbatim>\<open>verbose\<close> held 0 and sets the
  log level when it held 1, and the loop raises a notification when \<^verbatim>\<open>notifier\<close> held 7 and
  none when it held 0.
\<close>

theorem decisions_follow_indeterminate_values:
  "getopt sample_env = [] \<and>
   Log_Set_Quiet 1 \<in> set (trace (snd (main (sample_env\<lparr>verbose_indeterminate := 0\<rparr>)))) \<and>
   Log_Set_Quiet 1 \<notin> set (trace (snd (main (sample_env\<lparr>verbose_indeterminate := 1\<rparr>)))) \<and>
   Log_Set_Level 3 \<in> set (trace (snd (main (sample_env\<lparr>verbose_indeterminate := 1\<rparr>)))) \<and>
   parse_opts ''fileguard'' (getopt sample_env) \<lparr>verbose = 0, notifier = 7\<rparr> init_state =
     Inr (\<lparr>verbose = 0, notifier = 7\<rparr>, init_state) \<and>
   split_action sample_yaml 7 watching = Inr (execute_locals\<lparr>notifier_flag := 7\<rparr>, watching) \<and>
   Raise_Notification sample_time ''IN_OPEN'' \<in>
     set (trace (announce sample_env (execute_locals\<lparr>notifier_flag := 7\<rparr>)
                   sample_time ''IN_OPEN'' watching)) \<and>
   Raise_Notification sample_time ''IN_OPEN'' \<notin>
     set (trace (announce sample_env (execute_locals\<lparr>notifier_flag := 0\<rparr>)
                   sample_time ''IN_OPEN'' watching))"
  by (simp add: startup_defs sample_defs announce_def
        exit_def cleanup_def emit_def Let_def EXIT_SUCCESS_def EXIT_FAILURE_def)

subsection \<open>Teardown\<close>

text \<open>Every step of \<^verbatim>\<open>main\<close> either goes on with nothing released, or ends the run; a run
  that ends in \<^verbatim>\<open>exit\<close> has removed the watch as its last call.\<close>

lemma unreleased_emit:
  "unreleased st \<Longrightarrow> \<not> is_rm_watch e \<Longrightarrow> \<not> is_close e \<Longrightarrow> unreleased (emit e st)"
  by (simp add: unreleased_def emit_def releases_def closes_def)

lemma unreleased_usage: "unreleased st \<Longrightarrow> unreleased (usage a st)"
  by (simp add: usage_def unreleased_emit)

lemma torn_down_exit: "unreleased st \<Longrightarrow> torn_down (exit c st)"
  by (simp add: torn_down_def exit_def cleanup_def unreleased_def emit_def releases_def closes_def)

lemma torn_down_catch_sig: "unreleased st \<Longrightarrow> torn_down (catch_sig s st)"
  by (simp add: torn_down_def catch_sig_def exit_def cleanup_def unreleased_def emit_def
        releases_def closes_def Let_def)

lemma torn_down_other [simp]:
  "torn_down (Out_Of_Bounds_Read i, st)" "torn_down (Blocked_In_Read, st)"
  by (simp_all add: torn_down_def)

lemma parse_opts_teardown:
  "unreleased st \<Longrightarrow>
   (case parse_opts a cs fl st of Inl r \<Rightarrow> torn_down r | Inr (fl', st') \<Rightarrow> unreleased st')"
  by (induction a cs fl st rule: parse_opts.induct)
     (simp_all add: torn_down_exit unreleased_usage unreleased_emit)

lemma init_verbosity_unreleased: "unreleased st \<Longrightarrow> unreleased (init_verbosity fl st)"
  by (simp add: init_verbosity_def unreleased_emit)

lemma select_yaml_unreleased: "unreleased st \<Longrightarrow> unreleased (snd (select_yaml av st))"
  by (simp add: select_yaml_def unreleased_emit split: list.splits)

lemma load_config_teardown:
  "unreleased st \<Longrightarrow>
   (case load_config E t st of Inl r \<Rightarrow> torn_down r | Inr (yv, st') \<Rightarrow> unreleased st')"
  by (simp add: load_config_def Let_def torn_down_exit unreleased_emit)

lemma check_event_Inl:
  "check_event e i f = Inl h \<Longrightarrow> \<exists>j. h = Out_Of_Bounds_Read j"
proof (induction e i f rule: check_event.induct)
  case (1 y_event i event_flag)
  show ?case
  proof (cases "i < length events")
    case False
    with "1.prems" show ?thesis by (auto simp: check_event.simps)
  next
    case True
    show ?thesis
    proof (cases "events ! i")
      case None
      with True "1.prems" show ?thesis by (simp add: check_event.simps)
    next
      case (Some e)
      show ?thesis
      proof (cases "y_event = e")
        case True
        with \<open>i < length events\<close> Some "1.prems" show ?thesis by (simp add: check_event.simps)
      next
        case False
        with \<open>i < length events\<close> Some "1.prems"
        have "check_event y_event (Suc i) 1 = Inl h"
          by (subst (asm) check_event.simps) simp
        with "1.IH" [OF \<open>i < length events\<close> Some False] show ?thesis .
      qed
    qed
  qed
qed

lemma validate_teardown:
  "unreleased st \<Longrightarrow>
   (case validate E yv st of Inl r \<Rightarrow> torn_down r | Inr st' \<Rightarrow> unreleased st')"
proof (cases "check_event (event yv) 0 (event_flag_indeterminate E)")
  case (Inl h)
  with check_event_Inl [OF Inl] show ?thesis by (auto simp: validate_def)
next
  case (Inr event_flag)
  assume "unreleased st"
  with Inr show ?thesis
    by (simp add: validate_def Let_def torn_down_exit unreleased_emit)
qed

lemma unreleased_fd_wd [simp]:
  "unreleased (st\<lparr>fd := f\<rparr>) = unreleased st" "unreleased (st\<lparr>wd := w\<rparr>) = unreleased st"
  by (simp_all add: unreleased_def)

lemma init_inotify_unreleased: "unreleased st \<Longrightarrow> unreleased (init_inotify E yv st)"
  by (simp add: init_inotify_def Let_def unreleased_emit)

lemma split_action_teardown:
  "unreleased st \<Longrightarrow>
   (case split_action yv n st of Inl r \<Rightarrow> torn_down r | Inr (L, st') \<Rightarrow> unreleased st')"
  by (simp add: split_action_def Let_def torn_down_exit unreleased_emit
        split: prod.splits option.splits)

lemma dispatch_teardown:
  "unreleased st \<Longrightarrow>
   (case dispatch E L p ltime ev_name st of Inl r \<Rightarrow> torn_down r | Inr st' \<Rightarrow> unreleased st')"
  by (simp add: dispatch_def Let_def torn_down_exit unreleased_emit)

lemma announce_unreleased: "unreleased st \<Longrightarrow> unreleased (announce E L ltime ev_name st)"
  by (simp add: announce_def Let_def unreleased_emit)

lemma loop_body_teardown:
  "unreleased st \<Longrightarrow>
   (case loop_body E L buf p st of Inl r \<Rightarrow> torn_down r | Inr (p', st') \<Rightarrow> unreleased st')"
proof -
  assume st: "unreleased st"
  let ?st1 = "emit (Log Debug ''Time of event: %s'' [S (asctime E p)]) st"
  have st1: "unreleased ?st1" using st by (simp add: unreleased_emit)
  show ?thesis
  proof (cases "ev_at buf p")
    case None
    then show ?thesis by (simp add: loop_body_def Let_def)
  next
    case (Some ev)
    let ?st2 = "announce E L (asctime E p) (get_event E ev) ?st1"
    have st2: "unreleased ?st2" using st1 by (rule announce_unreleased)
    show ?thesis
      using dispatch_teardown [OF st2, of E L p "asctime E p" "get_event E ev"] Some
      by (auto simp: loop_body_def Let_def split: sum.splits)
  qed
qed

lemma process_events_teardown:
  "unreleased st \<Longrightarrow>
   (case process_events E L buf rd p st of Inl r \<Rightarrow> torn_down r | Inr st' \<Rightarrow> unreleased st')"
proof (induction E L buf rd p st rule: process_events.induct)
  case (1 E L buf rd p st)
  show ?case
  proof (cases "int p < rd")
    case False
    with "1.prems" show ?thesis by (simp add: process_events.simps)
  next
    case True
    show ?thesis
    proof (cases "loop_body E L buf p st")
      case (Inl r)
      with True loop_body_teardown [OF "1.prems", of E L buf p] show ?thesis
        by (simp add: process_events.simps)
    next
      case (Inr b)
      obtain p' st' where b: "b = (p', st')" by (cases b)
      have "unreleased st'"
        using loop_body_teardown [OF "1.prems", of E L buf p] Inr b by simp
      then show ?thesis
        using "1.IH" [OF True Inr [unfolded b] refl] True Inr b
        by (simp add: process_events.simps)
    qed
  qed
qed

lemma event_loop_teardown: "unreleased st \<Longrightarrow> torn_down (event_loop E L rs st)"
proof (induction rs arbitrary: st)
  case Nil
  then show ?case by (simp add: torn_down_exit)
next
  case (Cons r rs)
  let ?st1 = "emit (Read_Fd (fd st)) st"
  have st1: "unreleased ?st1" using Cons.prems by (simp add: unreleased_emit)
  show ?case
  proof (cases r)
    case (Interrupted s)
    with st1 Cons.prems show ?thesis
      by (simp add: torn_down_catch_sig torn_down_exit Let_def)
  next
    case (Returned rd buf)
    let ?st2 = "emit (Fprintf Out ''read() tossed back a 0'' []) ?st1"
    have st2: "unreleased ?st2" using st1 by (simp add: unreleased_emit)
    have err: "torn_down (exit EXIT_SUCCESS (emit (Perror ''Couldn't read event. Reason'') ?st1))"
      using st1 by (simp add: torn_down_exit unreleased_emit)
    show ?thesis
      using process_events_teardown [OF st2, of E L buf rd 0] Cons.IH err Cons.prems Returned
      by (auto simp: Let_def torn_down_exit split: sum.splits)
  qed
qed

lemma unreleased_init_state: "unreleased init_state"
  by (simp add: unreleased_def init_state_def releases_def closes_def)

lemma main_teardown: "torn_down (main E)"
proof -
  let ?a = "case argv E of [] \<Rightarrow> [] | a # _ \<Rightarrow> a"
  let ?fl0 = "\<lparr>verbose = verbose_indeterminate E, notifier = notifier_indeterminate E\<rparr>"
  show ?thesis
  proof (cases "parse_opts ?a (getopt E) ?fl0 init_state")
    case (Inl r)
    with parse_opts_teardown [OF unreleased_init_state, of ?a "getopt E" ?fl0]
    show ?thesis by (simp add: main_def)
  next
    case (Inr b)
    obtain fl st where b: "b = (fl, st)" by (cases b)
    have st: "unreleased st"
      using parse_opts_teardown [OF unreleased_init_state, of ?a "getopt E" ?fl0] Inr b by simp
    obtain t st2 where sel: "select_yaml (argv E) (init_verbosity fl st) = (t, st2)"
      by (cases "select_yaml (argv E) (init_verbosity fl st)")
    have st2: "unreleased st2"
      using select_yaml_unreleased [OF init_verbosity_unreleased [OF st], of "argv E" fl] sel
      by simp
    have null: "torn_down (exit EXIT_FAILURE
        (emit (Fprintf Err (nl @ ''Error: No required YAML configuration supplied.'' @ nl) [])
           (usage ?a st2)))"
      using st2 by (simp add: torn_down_exit unreleased_emit unreleased_usage)
    have rest: "torn_down
        (case load_config E (target_path E t) st2 of
           Inl h \<Rightarrow> h
         | Inr (yv, st3) \<Rightarrow>
             (case validate E yv st3 of
                Inl h \<Rightarrow> h
              | Inr st4 \<Rightarrow>
                  (case split_action yv (notifier fl) (init_inotify E yv st4) of
                     Inl h \<Rightarrow> h
                   | Inr (L, st5) \<Rightarrow> event_loop E L (reads E) st5)))"
    proof (cases "load_config E (target_path E t) st2")
      case (Inl h)
      with load_config_teardown [OF st2, of E "target_path E t"] show ?thesis by simp
    next
      case (Inr c)
      obtain yv st3 where c: "c = (yv, st3)" by (cases c)
      have st3: "unreleased st3"
        using load_config_teardown [OF st2, of E "target_path E t"] Inr c by simp
      show ?thesis
      proof (cases "validate E yv st3")
        case (Inl h)
        with validate_teardown [OF st3, of E yv] Inr c show ?thesis by simp
      next
        case v: (Inr st4)
        have st4: "unreleased st4" using validate_teardown [OF st3, of E yv] v by simp
        have st4': "unreleased (init_inotify E yv st4)"
          by (rule init_inotify_unreleased [OF st4])
        show ?thesis
        proof (cases "split_action yv (notifier fl) (init_inotify E yv st4)")
          case (Inl h)
          with split_action_teardown [OF st4', of yv "notifier fl"] Inr c v show ?thesis by simp
        next
          case sa: (Inr d)
          obtain L st5 where d: "d = (L, st5)" by (cases d)
          have "unreleased st5"
            using split_action_teardown [OF st4', of yv "notifier fl"] sa d by simp
          then show ?thesis
            using event_loop_teardown [of st5 E L "reads E"] Inr c v sa d by simp
        qed
      qed
    qed
    show ?thesis
      using null rest Inr b sel by (simp add: main_def Let_def)
  qed
qed

text \<open>
  Claim C6, as amended: on every path of \<^verbatim>\<open>main\<close> that ends in \<^verbatim>\<open>exit\<close> (the read loop left,
  a fatal start-up or log error, the signal handler), the last call of the process is
  \<^verbatim>\<open>inotify_rm_watch(fd, wd)\<close> on the two globals, issued by the \<^verbatim>\<open>cleanup\<close> routine that
  \<^verbatim>\<open>atexit\<close> runs. The call is issued once, and twice on the signal path, where the handler
  calls \<^verbatim>\<open>cleanup\<close> itself before \<^verbatim>\<open>exit\<close> runs it again: no guard makes the second call a
  no-op. The program never closes the channel handle.
\<close>

theorem every_exit_removes_the_watch:
  "main E = (Exited c, st) \<Longrightarrow>
   trace st \<noteq> [] \<and> last (trace st) = Inotify_Rm_Watch (fd st) (wd st) \<and>
   releases (trace st) = (if sc st then 1 else 2) \<and> closes (trace st) = 0"
  using main_teardown [of E] by (simp add: torn_down_def)

text \<open>The run that is interrupted during its first \<^verbatim>\<open>read\<close>.\<close>

lemma main_interrupted:
  "main interrupted_env =
     (Exited EXIT_SUCCESS,
      \<lparr>sc = False, fd = 3, wd = 1,
       trace =
         [Log_Set_Quiet 1,
          Log Info ''yaml file: %s'' [S ''fileguard.yaml''],
          Fprintf Out (''Initializing fileguard!'' @ nl) [],
          File_Check ''fileguard.yaml'',
          Log Debug ''File %s found'' [S ''fileguard.yaml''],
          Parse_Yaml_Config ''fileguard.yaml'',
          Log Debug ''Parsed YAML file: inode: %s event: %s execute: %s''
            [S ''/tmp/watched'', S ''IN_MODIFY'', S (action sample_yaml)],
          Log Info ''inode event found! Continuing.'' [],
          File_Check ''/tmp/watched'',
          Log Info ''inode successfully found and opened.'' [],
          Check_Inode_Permissions ''/tmp/watched'',
          Inotify_Init,
          Inotify_Add_Watch 3 ''/tmp/watched'',
          Read_Fd 3,
          Log Warn (''Signal %i caught! Cleaning up...'' @ nl) [I 2],
          Inotify_Rm_Watch 3 1,
          Inotify_Rm_Watch 3 1]\<rparr>)"
  by (simp add: interrupted_env_def startup_defs sample_defs catch_sig_def
        exit_def cleanup_def emit_def Let_def EXIT_SUCCESS_def EXIT_FAILURE_def)

theorem interrupted_run_removes_the_watch:
  "main interrupted_env = (Exited EXIT_SUCCESS, snd (main interrupted_env)) \<and>
   \<not> sc (snd (main interrupted_env)) \<and>
   last (trace (snd (main interrupted_env))) = Inotify_Rm_Watch 3 1 \<and>
   releases (trace (snd (main interrupted_env))) = 2 \<and>
   closes (trace (snd (main interrupted_env))) = 0"
proof -
  have run: "main interrupted_env = (Exited EXIT_SUCCESS, snd (main interrupted_env))"
    and sig: "\<not> sc (snd (main interrupted_env))"
    and glob: "fd (snd (main interrupted_env)) = 3" "wd (snd (main interrupted_env)) = 1"
    by (simp_all add: main_interrupted)
  from every_exit_removes_the_watch [OF run] run sig glob show ?thesis by simp
qed

text \<open>The claim as the specification words it, both handles released exactly once and a
  second release a no-op, fails on the signal path: the handler's trace removes the watch
  twice and closes nothing, and \<^verbatim>\<open>cleanup\<close> after \<^verbatim>\<open>cleanup\<close> adds a call.\<close>

theorem signal_path_releases_twice:
  "trace (snd (catch_sig 2 watching)) =
     [Log Warn (''Signal %i caught! Cleaning up...'' @ nl) [I 2],
      Inotify_Rm_Watch 3 1, Inotify_Rm_Watch 3 1] \<and>
   releases (trace (snd (catch_sig 2 watching))) = 2 \<and>
   closes (trace (snd (catch_sig 2 watching))) = 0 \<and>
   \<not> released_exactly_once (trace (snd (catch_sig 2 watching))) \<and>
   \<not> released_exactly_once (trace (snd (main interrupted_env))) \<and>
   cleanup (cleanup watching) \<noteq> cleanup watching"
  by (simp add: main_interrupted released_exactly_once_def releases_def closes_def
        catch_sig_def watching_def exit_def cleanup_def emit_def Let_def EXIT_SUCCESS_def)

subsection \<open>Decoding a buffer\<close>

text \<open>Reading back the four header fields of an encoded record, at any offset.\<close>

lemma length_le_bytes: "length (le_bytes w) = 4"
  by (simp add: le_bytes_def)

lemma bit_word_rcat_bytes:
  "bit (word_rcat ws :: 32 word) n \<longleftrightarrow>
     n < 32 \<and> n div 8 < length ws \<and> bit (rev ws ! (n div 8)) (n mod 8)"
  for ws :: "byte list"
  unfolding word_rcat_def comp_def bit_word_of_int_iff
  using bit_horner_sum_uint_exp_iff [of "rev ws" n]
  by simp

lemma rcat_le_bytes: "word_rcat (rev (le_bytes w)) = w"
proof (rule bit_word_eqI)
  fix n assume n: "n < LENGTH(32)"
  define k where "k = n div 8"
  define r where "r = n mod 8"
  have nk: "n = 8 * k + r" and r: "r < 8" and k: "k < 4"
    using n by (simp_all add: k_def r_def)
  from k consider "k = 0" | "k = 1" | "k = 2" | "k = 3" by linarith
  then have "bit (le_bytes w ! k) r = bit w n"
    using r by cases (simp_all add: le_bytes_def nk bit_ucast_iff bit_drop_bit_eq add.commute)
  then show "bit (word_rcat (rev (le_bytes w)) :: 32 word) n = bit w n"
    using n k by (simp add: bit_word_rcat_bytes length_le_bytes flip: k_def r_def)
qed

lemma u32_at_le_bytes: "u32_at (pre @ le_bytes w @ post) (length pre) = w"
  by (simp add: u32_at_def length_le_bytes rcat_le_bytes)

lemma length_enc_event: "length (enc_event r) = 16 + length (snd r)"
  by (simp add: enc_event_def length_le_bytes)

lemma ev_at_enc_event: "ev_at (pre @ enc_event r @ post) (length pre) = Some (fst r)"
proof -
  obtain h nm where r: "r = (h, nm)" by (cases r)
  let ?a = "le_bytes (ev_wd h)" and ?b = "le_bytes (ev_mask h)"
  let ?c = "le_bytes (ev_cookie h)" and ?d = "le_bytes (ev_len h)"
  let ?buf = "pre @ enc_event r @ post"
  have 1: "u32_at ?buf (length pre) = ev_wd h"
    using u32_at_le_bytes [of pre "ev_wd h" "?b @ ?c @ ?d @ nm @ post"]
    by (simp add: enc_event_def r)
  have 2: "u32_at ?buf (length pre + 4) = ev_mask h"
    using u32_at_le_bytes [of "pre @ ?a" "ev_mask h" "?c @ ?d @ nm @ post"]
    by (simp add: enc_event_def r length_le_bytes)
  have 3: "u32_at ?buf (length pre + 8) = ev_cookie h"
    using u32_at_le_bytes [of "pre @ ?a @ ?b" "ev_cookie h" "?d @ nm @ post"]
    by (simp add: enc_event_def r length_le_bytes)
  have 4: "u32_at ?buf (length pre + 12) = ev_len h"
    using u32_at_le_bytes [of "pre @ ?a @ ?b @ ?c" "ev_len h" "nm @ post"]
    by (simp add: enc_event_def r length_le_bytes)
  have "p + 16 \<le> length ?buf" if "p = length pre" for p
    using that by (simp add: length_enc_event)
  with 1 2 3 4 show ?thesis
    by (cases h) (simp add: ev_at_def sizeof_inotify_event_def r)
qed

lemma decode_pack_from:
  "list_all well_formed rs \<Longrightarrow>
   decode (pre @ pack rs @ slack) (int (length pre + length (pack rs))) (length pre) =
     (zip (offsets (length pre) rs) (map fst rs), Inr (length pre + length (pack rs)))"
proof (induction rs arbitrary: pre)
  case Nil
  then show ?case by (simp add: pack_def decode.simps)
next
  case (Cons r rs)
  have wf: "length (snd r) = unat (ev_len (fst r))"
    using Cons.prems by (simp add: well_formed_def)
  have rest: "list_all well_formed rs"
    using Cons.prems by simp
  have buf: "pre @ pack (r # rs) @ slack = (pre @ enc_event r) @ pack rs @ slack"
    by (simp add: pack_def)
  have len: "length pre + length (pack (r # rs)) = length (pre @ enc_event r) + length (pack rs)"
    by (simp add: pack_def)
  have ev: "ev_at (pre @ pack (r # rs) @ slack) (length pre) = Some (fst r)"
    using ev_at_enc_event [of pre r "pack rs @ slack"] by (simp add: pack_def)
  have next_p: "length pre + (sizeof_inotify_event + unat (ev_len (fst r))) = length (pre @ enc_event r)"
    by (simp add: sizeof_inotify_event_def length_enc_event wf)
  have lt: "int (length pre) < int (length pre + length (pack (r # rs)))"
    by (simp add: pack_def length_enc_event)
  have IH: "decode ((pre @ enc_event r) @ pack rs @ slack)
              (int (length (pre @ enc_event r) + length (pack rs))) (length (pre @ enc_event r)) =
            (zip (offsets (length (pre @ enc_event r)) rs) (map fst rs),
             Inr (length (pre @ enc_event r) + length (pack rs)))"
    by (rule Cons.IH [OF rest])
  show ?case
    apply (subst decode.simps)
    apply (simp only: lt if_True ev option.case next_p)
    apply (simp only: buf len IH)
    apply simp
    done
qed

subsection \<open>The inner loop on its own\<close>

text \<open>What the loop of lines 240 to 289 does with a buffer when it is entered with \<open>rd > 0\<close>.
  The read loop never enters it so (\<open>inner_loop_not_entered\<close>); the facts below are about the
  loop as it is written. One iteration prints the line of its record; a pass that runs to
  the end has printed the lines of all records its cursor visits.\<close>

lemma printed_announce:
  "printed (trace (announce E L ltime ev_name st)) = printed (trace st) @ [event_line ev_name]"
  by (simp add: announce_def Let_def printed_emit event_line_def)

lemma printed_dispatch:
  "printed (trace (final_state (dispatch E L p ltime ev_name st))) = printed (trace st)"
  by (simp add: dispatch_def final_state_def Let_def printed_emit exit_def cleanup_def)

lemma printed_loop_body:
  "ev_at buf p = Some ev \<Longrightarrow>
   printed (trace (body_state (loop_body E L buf p st))) =
     printed (trace st) @ [event_line (get_event E ev)]"
  using printed_dispatch [of E L p "asctime E p" "get_event E ev"
      "announce E L (asctime E p) (get_event E ev)
         (emit (Log Debug ''Time of event: %s'' [S (asctime E p)]) st)"]
  by (auto simp: loop_body_def Let_def final_state_def body_state_def printed_announce
        printed_emit split: sum.splits)

lemma loop_body_Inr:
  "loop_body E L buf p st = Inr (p', st') \<Longrightarrow>
   \<exists>ev. ev_at buf p = Some ev \<and> p' = p + (sizeof_inotify_event + unat (ev_len ev))"
  by (auto simp: loop_body_def Let_def split: option.splits sum.splits)

lemma printed_process_events:
  "process_events E L buf rd p st = Inr st' \<Longrightarrow>
   printed (trace st') =
     printed (trace st) @ map (\<lambda>(q, ev). event_line (get_event E ev)) (fst (decode buf rd p))"
proof (induction E L buf rd p st rule: process_events.induct)
  case (1 E L buf rd p st)
  show ?case
  proof (cases "int p < rd")
    case False
    with "1.prems" show ?thesis by (simp add: process_events.simps decode.simps)
  next
    case True
    from True "1.prems" obtain p' st1 where body: "loop_body E L buf p st = Inr (p', st1)"
      and rest: "process_events E L buf rd p' st1 = Inr st'"
      by (subst (asm) process_events.simps) (auto split: sum.splits)
    from loop_body_Inr [OF body] obtain ev where ev: "ev_at buf p = Some ev"
      and p': "p' = p + (sizeof_inotify_event + unat (ev_len ev))" by blast
    have one: "printed (trace st1) = printed (trace st) @ [event_line (get_event E ev)]"
      using printed_loop_body [OF ev, of E L st] body by (simp add: body_state_def)
    have more: "printed (trace st') =
        printed (trace st1) @ map (\<lambda>(q, ev). event_line (get_event E ev)) (fst (decode buf rd p'))"
      using "1.IH" [OF True body refl rest] .
    have dec: "fst (decode buf rd p) = (p, ev) # fst (decode buf rd p')"
      using True ev p' by (subst decode.simps) (simp add: split_beta)
    show ?thesis by (simp add: one more dec)
  qed
qed

text \<open>Outside Log mode no iteration ends the run, so a pass whose cursor stays inside the
  array runs to the end of the buffer.\<close>

lemma dispatch_no_log:
  "prepend L \<noteq> Some ''log'' \<Longrightarrow> \<exists>st'. dispatch E L p ltime ev_name st = Inr st'"
  by (simp add: dispatch_def)

lemma loop_body_no_log:
  "prepend L \<noteq> Some ''log'' \<Longrightarrow> ev_at buf p = Some ev \<Longrightarrow>
   \<exists>st'. loop_body E L buf p st = Inr (p + (sizeof_inotify_event + unat (ev_len ev)), st')"
proof -
  assume L: "prepend L \<noteq> Some ''log''" and ev: "ev_at buf p = Some ev"
  let ?st2 = "announce E L (asctime E p) (get_event E ev)
                (emit (Log Debug ''Time of event: %s'' [S (asctime E p)]) st)"
  from dispatch_no_log [OF L, of E p "asctime E p" "get_event E ev" ?st2]
  obtain st' where "dispatch E L p (asctime E p) (get_event E ev) ?st2 = Inr st'" by blast
  with ev show ?thesis by (simp add: loop_body_def Let_def)
qed

lemma process_events_no_log:
  "prepend L \<noteq> Some ''log'' \<Longrightarrow> snd (decode buf rd p) = Inr q \<Longrightarrow>
   \<exists>st'. process_events E L buf rd p st = Inr st'"
proof (induction E L buf rd p st rule: process_events.induct)
  case (1 E L buf rd p st)
  show ?case
  proof (cases "int p < rd")
    case False
    then show ?thesis by (simp add: process_events.simps)
  next
    case True
    obtain ev where ev: "ev_at buf p = Some ev"
      using True "1.prems"(2) by (subst (asm) decode.simps) (auto split: option.splits)
    let ?p' = "p + (sizeof_inotify_event + unat (ev_len ev))"
    have rest: "snd (decode buf rd ?p') = Inr q"
      using True ev "1.prems"(2) by (subst (asm) decode.simps) (simp add: split_beta)
    obtain st1 where body: "loop_body E L buf p st = Inr (?p', st1)"
      using loop_body_no_log [OF "1.prems"(1) ev] by blast
    from "1.IH" [OF True body refl "1.prems"(1) rest] True body show ?thesis
      by (simp add: process_events.simps [of E L buf rd p st])
  qed
qed

text \<open>On records laid out one behind the other, each taking header size plus \<^verbatim>\<open>len\<close> bytes,
  the cursor visits every record, in order, and ends at the valid length.\<close>

lemma inner_loop_visits_packed_records:
  "list_all well_formed rs \<Longrightarrow>
   decode (pack rs @ slack) (int (length (pack rs))) 0 =
     (zip (offsets 0 rs) (map fst rs), Inr (length (pack rs))) \<and>
   length (fst (decode (pack rs @ slack) (int (length (pack rs))) 0)) = length rs \<and>
   (prepend L \<noteq> Some ''log'' \<longrightarrow>
      (\<exists>st'. process_events E L (pack rs @ slack) (int (length (pack rs))) 0 st = Inr st' \<and>
             printed (trace st') =
               printed (trace st) @ map (\<lambda>r. event_line (get_event E (fst r))) rs))"
proof -
  assume wf: "list_all well_formed rs"
  let ?buf = "pack rs @ slack" and ?n = "int (length (pack rs))"
  have len: "length (offsets p rs) = length rs" for p
    by (induction rs arbitrary: p) simp_all
  have dec: "decode ?buf ?n 0 = (zip (offsets 0 rs) (map fst rs), Inr (length (pack rs)))"
    using decode_pack_from [OF wf, of "[]" slack] by simp
  have names: "map (\<lambda>(q, ev). event_line (get_event E ev)) (zip (offsets 0 rs) (map fst rs)) =
      map (\<lambda>r. event_line (get_event E (fst r))) rs"
    by (rule nth_equalityI) (simp_all add: len)
  have run: "\<exists>st'. process_events E L ?buf ?n 0 st = Inr st' \<and>
      printed (trace st') = printed (trace st) @ map (\<lambda>r. event_line (get_event E (fst r))) rs"
    if L: "prepend L \<noteq> Some ''log''"
  proof -
    from process_events_no_log [OF L, of ?buf ?n 0 "length (pack rs)" E st] dec
    obtain st' where st': "process_events E L ?buf ?n 0 st = Inr st'" by auto
    from printed_process_events [OF st'] dec names st' show ?thesis by simp
  qed
  from dec run show ?thesis by (simp add: len)
qed

text \<open>The loop compares no record with the valid length: a record that starts below it is
  handled also when its declared length passes it.\<close>

lemma inner_loop_checks_no_length:
  "int p < rd \<Longrightarrow> ev_at buf p = Some ev \<Longrightarrow>
   rd < int (p + (sizeof_inotify_event + unat (ev_len ev))) \<Longrightarrow>
   decode buf rd p = ([(p, ev)], Inr (p + (sizeof_inotify_event + unat (ev_len ev)))) \<and>
   process_events E L buf rd p st =
     (case loop_body E L buf p st of Inl h \<Rightarrow> Inl h | Inr (p', st') \<Rightarrow> Inr st')"
proof -
  assume p: "int p < rd" and ev: "ev_at buf p = Some ev"
    and past: "rd < int (p + (sizeof_inotify_event + unat (ev_len ev)))"
  let ?p' = "p + (sizeof_inotify_event + unat (ev_len ev))"
  have stop: "\<not> int ?p' < rd" using past by simp
  have d: "decode buf rd p = ([(p, ev)], Inr ?p')"
    using p ev stop by (subst decode.simps) (simp add: decode.simps [of buf rd ?p'])
  have "process_events E L buf rd p st =
      (case loop_body E L buf p st of Inl h \<Rightarrow> Inl h | Inr (p', st') \<Rightarrow> Inr st')"
  proof (cases "loop_body E L buf p st")
    case (Inl h)
    with p show ?thesis by (simp add: process_events.simps)
  next
    case (Inr b)
    obtain p' st' where b: "b = (p', st')" by (cases b)
    have "p' = ?p'"
      using Inr b ev by (auto simp: loop_body_def Let_def split: sum.splits)
    with stop have "process_events E L buf rd p' st' = Inr st'"
      by (simp add: process_events.simps)
    with p Inr b show ?thesis by (simp add: process_events.simps [of E L buf rd p st])
  qed
  with d show ?thesis by simp
qed

subsection \<open>What the program does with the bytes it has read\<close>

lemma main_varying:
  "main varying_env =
     (Exited EXIT_SUCCESS,
      \<lparr>sc = True, fd = 3, wd = 1,
       trace =
         [Log_Set_Quiet 1,
          Log Info ''yaml file: %s'' [S ''fileguard.yaml''],
          Fprintf Out (''Initializing fileguard!'' @ nl) [],
          File_Check ''fileguard.yaml'',
          Log Debug ''File %s found'' [S ''fileguard.yaml''],
          Parse_Yaml_Config ''fileguard.yaml'',
          Log Debug ''Parsed YAML file: inode: %s event: %s execute: %s''
            [S ''/tmp/watched'', S ''IN_MODIFY'', S (action sample_yaml)],
          Log Info ''inode event found! Continuing.'' [],
          File_Check ''/tmp/watched'',
          Log Info ''inode successfully found and opened.'' [],
          Check_Inode_Permissions ''/tmp/watched'',
          Inotify_Init,
          Inotify_Add_Watch 3 ''/tmp/watched'',
          Read_Fd 3,
          Perror ''Couldn't read event. Reason'',
          Inotify_Rm_Watch 3 1]\<rparr>)"
  by (simp add: varying_env_def startup_defs sample_defs
        exit_def cleanup_def emit_def Let_def EXIT_SUCCESS_def EXIT_FAILURE_def)

lemma decode_varying:
  "decode (pack varying_records @ replicate 32 0) 96 0 =
     ([(0, sample_hdr 0x100 16), (32, sample_hdr 0x2 0), (48, sample_hdr 0x200 32)], Inr 96)"
  by code_simp

text \<open>
  Claim C4: for every well-formed concatenation of \<open>N\<close> records of varying name lengths in a
  buffer of exactly the right size \<open>n\<close>, one forward pass that advances by header size plus
  length (rounded to the record alignment) yields exactly the \<open>N\<close> records, in order, and
  ends with the cursor at \<open>n\<close>.

  The loop of lines 240 to 289 is written to do so (\<open>inner_loop_visits_packed_records\<close>; in
  the buffers the kernel fills, \<^verbatim>\<open>len\<close> counts the padding of the name, so that rounding
  changes nothing), and the program never runs it on a record. A read that returns three
  well-formed records, 96 bytes, with names of 16, 0 and 32 bytes, takes the \<^verbatim>\<open>else\<close> of the
  test \<^verbatim>\<open>rd == 0\<close> (the slip of claim C1): the run reports a read error and ends, and none of
  the three records is decoded.
\<close>

theorem packed_records_are_not_decoded:
  "list_all well_formed varying_records \<and>
   length (pack varying_records) = 96 \<and>
   reads varying_env = [Returned 96 (pack varying_records @ replicate 32 0)] \<and>
   fst (decode (pack varying_records @ replicate 32 0) 96 0) =
     [(0, sample_hdr 0x100 16), (32, sample_hdr 0x2 0), (48, sample_hdr 0x200 32)] \<and>
   fst (main varying_env) = Exited EXIT_SUCCESS \<and>
   drop 13 (trace (snd (main varying_env))) =
     [Read_Fd 3, Perror ''Couldn't read event. Reason'', Inotify_Rm_Watch 3 1] \<and>
   printed (trace (snd (main varying_env))) = [(''Initializing fileguard!'' @ nl, [])]"
proof -
  have wf: "list_all well_formed varying_records"
    by (simp add: varying_records_def well_formed_def sample_hdr_def)
  have n: "length (pack varying_records) = 96"
    by (simp add: varying_records_def pack_def enc_event_def le_bytes_def)
  have rd: "reads varying_env = [Returned 96 (pack varying_records @ replicate 32 0)]"
    by (simp add: varying_env_def sample_env_def)
  from wf n rd show ?thesis
    by (simp add: main_varying decode_varying printed_def)
qed

text \<open>
  Claim C8: for every decoded record the program prints the record's event name to
  standard output, whether or not the event is the configured trigger and whatever the
  mode, so that events that do not match are not silent at the process's output.

  Line 258 prints the name in every iteration of the inner loop, before the rule is
  looked at (\<open>printed_loop_body\<close>, \<open>printed_process_events\<close>), and the program never runs an
  iteration. A read that delivers \<^verbatim>\<open>IN_OPEN\<close>, \<^verbatim>\<open>IN_MODIFY\<close> and \<^verbatim>\<open>IN_DELETE\<close> takes the \<^verbatim>\<open>else\<close> of
  the test \<^verbatim>\<open>rd == 0\<close> (the slip of claim C1): in Execute mode and in Log mode, all that the
  process writes to standard output is the start-up line, and no event is named (for every
  input: \<open>event_loop_prints_no_event\<close>).
\<close>

theorem delivered_events_are_not_printed:
  "reads three_events_env = [Returned 48 open_modify_delete] \<and>
   reads three_events_log_env = [Returned 48 open_modify_delete] \<and>
   map (\<lambda>(q, ev). get_event three_events_env ev) (fst (decode open_modify_delete 48 0)) =
     [''IN_OPEN'', ''IN_MODIFY'', ''IN_DELETE''] \<and>
   printed (trace (snd (main three_events_env))) = [(''Initializing fileguard!'' @ nl, [])] \<and>
   printed (trace (snd (main three_events_log_env))) = [(''Initializing fileguard!'' @ nl, [])] \<and>
   event_line ''IN_OPEN'' \<notin> set (printed (trace (snd (main three_events_env)))) \<and>
   event_line ''IN_MODIFY'' \<notin> set (printed (trace (snd (main three_events_env)))) \<and>
   event_line ''IN_DELETE'' \<notin> set (printed (trace (snd (main three_events_env))))"
  by (simp add: main_three_events main_three_events_log decode_open_modify_delete printed_def
        event_line_def)
     (simp add: three_events_env_def three_events_log_env_def sample_defs)





end
